theory Spec2Isabelle
  imports Complex_Main "HOL-Library.AList"
begin

section \<open>Result tabulation of \<open>python/visualizations.py\<close>\<close>

text \<open>
  The class \<open>Visualizations\<close> holds a parse tree and a test set (a pandas \<open>DataFrame\<close>);
  \<open>tabulate_results\<close> copies the test set, adds three columns and fills them row by row
  from \<open>IrisGP.evaluate_row\<close>; \<open>plot_predictions_by_dimension\<close> reads the table back and
  picks a colour, an opacity and a marker size for every row.

  \<open>IrisGP\<close> (module \<open>genetic_programming\<close>) is imported by the source and is not part of
  it: \<open>IrisGP.evaluate_row\<close>, \<open>IrisGP.THRESHOLD_LOW\<close> and \<open>IrisGP.THRESHOLD_HIGH\<close> are
  parameters of the model.
\<close>

subsection \<open>Cells, rows, frames\<close>

text \<open>
  A cell of a frame is \<open>None\<close>, a boolean, a number or a string. Numbers are real numbers:
  the comparisons of the source are the only arithmetic it does on them, and they are
  exact on every float that is a number (a NaN is outside this model).
\<close>

datatype cell = PyNone | PyBool bool | PyNum real | PyStr string

text \<open>
  A row (a pandas \<open>Series\<close>) lists its columns in order. A frame lists its rows in order,
  each under its index label; pandas does not ask the labels of a frame to differ.
\<close>

type_synonym series = "(string \<times> cell) list"

type_synonym label = int

type_synonym dataframe = "(label \<times> series) list"

subsection \<open>The store\<close>

text \<open>
  Frames are mutable objects. The store lists the frames allocated so far, a reference is
  a position in that list, and a new frame goes to the end. The state also logs the rows
  on which \<open>IrisGP.evaluate_row\<close> has been called, in call order.
\<close>

type_synonym addr = nat

record state =
  heap :: "dataframe list"
  calls :: "series list"

text \<open>
  The attributes of \<open>self\<close> that \<open>tabulate_results\<close> reads. (The third attribute,
  \<open>test_results\<close>, is assigned by \<open>__init__\<close> from what \<open>tabulate_results\<close> returns.)
\<close>

record 't visualizations =
  parse_tree :: 't
  test_df :: addr

subsection \<open>The pandas operations the source calls\<close>

text \<open>\<open>df.copy()\<close>: a new frame with the same rows (a deep copy).\<close>

definition df_copy :: "addr \<Rightarrow> state \<Rightarrow> addr \<times> state" where
  "df_copy a s = (length (heap s), s\<lparr>heap := heap s @ [heap s ! a]\<rparr>)"

text \<open>
  \<open>df[col] = v\<close> with a scalar \<open>v\<close>: every row gets \<open>v\<close> in column \<open>col\<close>; an existing
  column keeps its place, a new one is added last.
\<close>

definition set_column :: "string \<Rightarrow> cell \<Rightarrow> dataframe \<Rightarrow> dataframe" where
  "set_column col v df = map (\<lambda>(idx, row). (idx, AList.update col v row)) df"

definition setitem :: "addr \<Rightarrow> string \<Rightarrow> cell \<Rightarrow> state \<Rightarrow> state" where
  "setitem a col v s = s\<lparr>heap := (heap s)[a := set_column col v (heap s ! a)]\<rparr>"

text \<open>
  \<open>df.at[idx, col] = v\<close> addresses the row by its index label: every row labelled
  \<open>idx\<close> gets \<open>v\<close> in column \<open>col\<close> (with a label that occurs once, that is one cell).
  The source only writes labels that \<open>iterrows\<close> gave it, so a label no row carries
  does not arise.
\<close>

definition at_df :: "label \<Rightarrow> string \<Rightarrow> cell \<Rightarrow> dataframe \<Rightarrow> dataframe" where
  "at_df idx col v df =
     map (\<lambda>(i, row). if i = idx then (i, AList.update col v row) else (i, row)) df"

definition at_set :: "addr \<Rightarrow> label \<Rightarrow> string \<Rightarrow> cell \<Rightarrow> state \<Rightarrow> state" where
  "at_set a idx col v s = s\<lparr>heap := (heap s)[a := at_df idx col v (heap s ! a)]\<rparr>"

text \<open>
  \<open>df.iterrows()\<close>: the pairs of label and row, in order. The rows are copies taken when
  the iteration starts; later writes to the frame do not show in them.
\<close>

definition iterrows :: "addr \<Rightarrow> state \<Rightarrow> (label \<times> series) list" where
  "iterrows a s = heap s ! a"

subsection \<open>\<open>Visualizations.tabulate_results\<close>\<close>

text \<open>The \<open>if\<close>/\<open>elif\<close>/\<open>else\<close> of lines 51 to 56.\<close>

definition predicted_species :: "real \<Rightarrow> real \<Rightarrow> real \<Rightarrow> string" where
  "predicted_species threshold_low threshold_high res =
     (if res < threshold_low then ''Iris-setosa''
      else if res < threshold_high then ''Iris-versicolor''
      else ''Iris-virginica'')"

text \<open>
  The loop of lines 47 to 57 over the rows that \<open>iterrows\<close> gave. \<open>evaluate_row\<close> returns
  a pair of correctness and value, or raises; what it raises leaves the loop at once.
\<close>

fun tabulate_loop ::
  "('t \<Rightarrow> series \<Rightarrow> 'e + bool \<times> real) \<Rightarrow> real \<Rightarrow> real \<Rightarrow> 't \<Rightarrow> addr \<Rightarrow>
   (label \<times> series) list \<Rightarrow> state \<Rightarrow> ('e + unit) \<times> state" where
  "tabulate_loop evaluate_row threshold_low threshold_high tree test_results [] s = (Inr (), s)"
| "tabulate_loop evaluate_row threshold_low threshold_high tree test_results ((idx, row) # rest) s =
     (let s0 = s\<lparr>calls := calls s @ [row]\<rparr> in
      case evaluate_row tree row of
        Inl e \<Rightarrow> (Inl e, s0)
      | Inr (correctness, res) \<Rightarrow>
          (let s1 = at_set test_results idx ''Correct'' (PyBool correctness) s0;
               s2 = at_set test_results idx ''PredictedValue'' (PyNum res) s1;
               species = predicted_species threshold_low threshold_high res;
               s3 = at_set test_results idx ''PredictedSpecies'' (PyStr species) s2
           in tabulate_loop evaluate_row threshold_low threshold_high tree test_results rest s3))"

definition tabulate_results ::
  "('t \<Rightarrow> series \<Rightarrow> 'e + bool \<times> real) \<Rightarrow> real \<Rightarrow> real \<Rightarrow> 't visualizations \<Rightarrow>
   state \<Rightarrow> ('e + addr) \<times> state" where
  "tabulate_results evaluate_row threshold_low threshold_high self s =
     (let (test_results, s1) = df_copy (test_df self) s;
          s2 = setitem test_results ''Correct'' PyNone s1;
          s3 = setitem test_results ''PredictedValue'' PyNone s2;
          s4 = setitem test_results ''PredictedSpecies'' PyNone s3
      in case tabulate_loop evaluate_row threshold_low threshold_high (parse_tree self)
                test_results (iterrows test_results s4) s4 of
           (Inl e, s') \<Rightarrow> (Inl e, s')
         | (Inr u, s') \<Rightarrow> (Inr test_results, s'))"

subsection \<open>The encodings of \<open>plot_predictions_by_dimension\<close>\<close>

definition COLOR_MAP :: "(string \<times> string) list" where
  "COLOR_MAP =
     [(''Iris-setosa'', ''tab:blue''),
      (''Iris-versicolor'', ''tab:orange''),
      (''Iris-virginica'', ''tab:green'')]"

definition CORRECT_OPACITY :: real where
  "CORRECT_OPACITY = 3 / 10"

definition CORRECT_SIZE :: int where
  "CORRECT_SIZE = 30"

definition INCORRECT_SIZE :: int where
  "INCORRECT_SIZE = 60"

text \<open>The truth value Python gives a cell in a conditional expression.\<close>

fun truthy :: "cell \<Rightarrow> bool" where
  "truthy PyNone = False"
| "truthy (PyBool b) = b"
| "truthy (PyNum x) = (x \<noteq> 0)"
| "truthy (PyStr t) = (t \<noteq> [])"

text \<open>Lines 98 and 99: the \<open>alpha\<close> and \<open>s\<close> arguments, from the cell \<open>row["Correct"]\<close>.\<close>

definition scatter_alpha :: "cell \<Rightarrow> real" where
  "scatter_alpha correct = (if truthy correct then CORRECT_OPACITY else 1)"

definition scatter_size :: "cell \<Rightarrow> int" where
  "scatter_size correct = (if truthy correct then CORRECT_SIZE else INCORRECT_SIZE)"

text \<open>
  Line 97: \<open>COLOR_MAP[row["PredictedSpecies"]]\<close>. Both subscripts raise \<open>KeyError\<close> on a
  key that is not there; a cell that is not a string is no key of \<open>COLOR_MAP\<close>.
\<close>

datatype key_error = KeyError

definition scatter_color :: "series \<Rightarrow> key_error + string" where
  "scatter_color row =
     (case map_of row ''PredictedSpecies'' of
        None \<Rightarrow> Inl KeyError
      | Some (PyStr species) \<Rightarrow>
          (case map_of COLOR_MAP species of None \<Rightarrow> Inl KeyError | Some c \<Rightarrow> Inr c)
      | Some _ \<Rightarrow> Inl KeyError)"

section \<open>Notions used in the statements\<close>

text \<open>The three columns that \<open>tabulate_results\<close> adds, and a row without them.\<close>

definition derived_columns :: "string list" where
  "derived_columns = [''Correct'', ''PredictedValue'', ''PredictedSpecies'']"

definition original_fields :: "series \<Rightarrow> series" where
  "original_fields row = filter (\<lambda>(col, v). col \<notin> set derived_columns) row"

text \<open>
  Lines 44 to 46 on one row: the three columns, holding \<open>None\<close>. This is the row that
  \<open>iterrows\<close> gives and \<open>IrisGP.evaluate_row\<close> receives.
\<close>

definition with_result_columns :: "series \<Rightarrow> series" where
  "with_result_columns row =
     AList.update ''PredictedSpecies'' PyNone
       (AList.update ''PredictedValue'' PyNone (AList.update ''Correct'' PyNone row))"

definition snapshot :: "dataframe \<Rightarrow> dataframe" where
  "snapshot df = map (\<lambda>(idx, row). (idx, with_result_columns row)) df"

text \<open>
  Lines 49, 50 and 57 on one row, and on every row of a frame that carries the label.
\<close>

definition store_result :: "real \<Rightarrow> real \<Rightarrow> bool \<Rightarrow> real \<Rightarrow> series \<Rightarrow> series" where
  "store_result threshold_low threshold_high correctness res row =
     AList.update ''PredictedSpecies'' (PyStr (predicted_species threshold_low threshold_high res))
       (AList.update ''PredictedValue'' (PyNum res)
         (AList.update ''Correct'' (PyBool correctness) row))"

definition write_result :: "real \<Rightarrow> real \<Rightarrow> label \<Rightarrow> bool \<Rightarrow> real \<Rightarrow> dataframe \<Rightarrow> dataframe" where
  "write_result threshold_low threshold_high idx correctness res df =
     map (\<lambda>(i, row). if i = idx
            then (i, store_result threshold_low threshold_high correctness res row)
            else (i, row)) df"

text \<open>
  The loop seen from outside: whether it ends or what it raises, the rows on which it
  called \<open>IrisGP.evaluate_row\<close>, and the frame it leaves. Lemma \<open>tabulate_loop_char\<close>
  shows that the loop on the store is these three together.
\<close>

fun outcome :: "('t \<Rightarrow> series \<Rightarrow> 'e + bool \<times> real) \<Rightarrow> 't \<Rightarrow> (label \<times> series) list \<Rightarrow> 'e + unit" where
  "outcome evaluate_row tree [] = Inr ()"
| "outcome evaluate_row tree ((idx, row) # rest) =
     (case evaluate_row tree row of Inl e \<Rightarrow> Inl e | Inr r \<Rightarrow> outcome evaluate_row tree rest)"

fun called :: "('t \<Rightarrow> series \<Rightarrow> 'e + bool \<times> real) \<Rightarrow> 't \<Rightarrow> (label \<times> series) list \<Rightarrow> series list" where
  "called evaluate_row tree [] = []"
| "called evaluate_row tree ((idx, row) # rest) =
     row # (case evaluate_row tree row of Inl e \<Rightarrow> [] | Inr r \<Rightarrow> called evaluate_row tree rest)"

fun fill ::
  "('t \<Rightarrow> series \<Rightarrow> 'e + bool \<times> real) \<Rightarrow> real \<Rightarrow> real \<Rightarrow> 't \<Rightarrow> (label \<times> series) list \<Rightarrow>
   dataframe \<Rightarrow> dataframe" where
  "fill evaluate_row threshold_low threshold_high tree [] df = df"
| "fill evaluate_row threshold_low threshold_high tree ((idx, row) # rest) df =
     (case evaluate_row tree row of
        Inl e \<Rightarrow> df
      | Inr (correctness, res) \<Rightarrow>
          fill evaluate_row threshold_low threshold_high tree rest
            (write_result threshold_low threshold_high idx correctness res df))"

section \<open>A stand-in predictor and sample frames\<close>

text \<open>
  The examples below need a predictor. This one reads the petal length as the value,
  reports the prediction as correct when the row's species is Iris-setosa, and raises
  when the row has no petal length. The thresholds of the examples are 2 and 5.
\<close>

definition demo_evaluate_row :: "unit \<Rightarrow> series \<Rightarrow> string + bool \<times> real" where
  "demo_evaluate_row tree row =
     (case map_of row ''PetalLengthCm'' of
        Some (PyNum x) \<Rightarrow> Inr (map_of row ''Species'' = Some (PyStr ''Iris-setosa''), x)
      | _ \<Rightarrow> Inl ''PetalLengthCm'')"

definition demo_self :: "unit visualizations" where
  "demo_self = \<lparr>parse_tree = (), test_df = 0\<rparr>"

text \<open>Three rows with values 1, 2 and 5, and the table expected for them.\<close>

definition demo_frame :: dataframe where
  "demo_frame =
     [(0, [(''PetalLengthCm'', PyNum 1), (''Species'', PyStr ''Iris-setosa'')]),
      (1, [(''PetalLengthCm'', PyNum 2), (''Species'', PyStr ''Iris-setosa'')]),
      (2, [(''PetalLengthCm'', PyNum 5), (''Species'', PyStr ''Iris-virginica'')])]"

definition demo_table :: dataframe where
  "demo_table =
     [(0, [(''PetalLengthCm'', PyNum 1), (''Species'', PyStr ''Iris-setosa''),
           (''Correct'', PyBool True), (''PredictedValue'', PyNum 1),
           (''PredictedSpecies'', PyStr ''Iris-setosa'')]),
      (1, [(''PetalLengthCm'', PyNum 2), (''Species'', PyStr ''Iris-setosa''),
           (''Correct'', PyBool True), (''PredictedValue'', PyNum 2),
           (''PredictedSpecies'', PyStr ''Iris-versicolor'')]),
      (2, [(''PetalLengthCm'', PyNum 5), (''Species'', PyStr ''Iris-virginica''),
           (''Correct'', PyBool False), (''PredictedValue'', PyNum 5),
           (''PredictedSpecies'', PyStr ''Iris-virginica'')])]"

definition demo_state :: state where
  "demo_state = \<lparr>heap = [demo_frame], calls = []\<rparr>"

text \<open>Five rows, the third without a petal length.\<close>

definition demo_bad_frame :: dataframe where
  "demo_bad_frame =
     [(0, [(''PetalLengthCm'', PyNum 1), (''Species'', PyStr ''Iris-setosa'')]),
      (1, [(''PetalLengthCm'', PyNum 2), (''Species'', PyStr ''Iris-setosa'')]),
      (2, [(''Species'', PyStr ''Iris-versicolor'')]),
      (3, [(''PetalLengthCm'', PyNum 5), (''Species'', PyStr ''Iris-virginica'')]),
      (4, [(''PetalLengthCm'', PyNum 9), (''Species'', PyStr ''Iris-virginica'')])]"

definition demo_bad_state :: state where
  "demo_bad_state = \<lparr>heap = [demo_bad_frame], calls = []\<rparr>"

text \<open>Two rows under the same index label, and the table the source leaves for them.\<close>

definition demo_twin_frame :: dataframe where
  "demo_twin_frame =
     [(0, [(''PetalLengthCm'', PyNum 1), (''Species'', PyStr ''Iris-setosa'')]),
      (0, [(''PetalLengthCm'', PyNum 9), (''Species'', PyStr ''Iris-virginica'')])]"

definition demo_twin_table :: dataframe where
  "demo_twin_table =
     [(0, [(''PetalLengthCm'', PyNum 1), (''Species'', PyStr ''Iris-setosa''),
           (''Correct'', PyBool False), (''PredictedValue'', PyNum 9),
           (''PredictedSpecies'', PyStr ''Iris-virginica'')]),
      (0, [(''PetalLengthCm'', PyNum 9), (''Species'', PyStr ''Iris-virginica''),
           (''Correct'', PyBool False), (''PredictedValue'', PyNum 9),
           (''PredictedSpecies'', PyStr ''Iris-virginica'')])]"

definition demo_twin_state :: state where
  "demo_twin_state = \<lparr>heap = [demo_twin_frame], calls = []\<rparr>"

section \<open>The loop and the pandas operations\<close>

lemma write_result_at:
  "at_df idx ''PredictedSpecies'' (PyStr (predicted_species lo hi res))
     (at_df idx ''PredictedValue'' (PyNum res) (at_df idx ''Correct'' (PyBool c) df))
   = write_result lo hi idx c res df"
  by (simp add: at_df_def write_result_def store_result_def split_def comp_def)

lemma tabulate_loop_char:
  "a < length (heap s) \<Longrightarrow>
   tabulate_loop ev lo hi pt a xs s =
     (outcome ev pt xs,
      s\<lparr>heap := (heap s)[a := fill ev lo hi pt xs (heap s ! a)],
        calls := calls s @ called ev pt xs\<rparr>)"
proof (induction xs arbitrary: s)
  case Nil
  then show ?case by simp
next
  case (Cons x xs)
  obtain idx row where x: "x = (idx, row)" by (cases x)
  show ?case
  proof (cases "ev pt row")
    case (Inl e)
    with Cons.prems x show ?thesis by simp
  next
    case (Inr r)
    obtain c v where r: "r = (c, v)" by (cases r)
    let ?s3 = "at_set a idx ''PredictedSpecies'' (PyStr (predicted_species lo hi v))
                 (at_set a idx ''PredictedValue'' (PyNum v)
                   (at_set a idx ''Correct'' (PyBool c) (s\<lparr>calls := calls s @ [row]\<rparr>)))"
    have h3: "heap ?s3 = (heap s)[a := write_result lo hi idx c v (heap s ! a)]"
      using Cons.prems by (simp add: at_set_def write_result_at)
    have c3: "calls ?s3 = calls s @ [row]"
      by (simp add: at_set_def)
    have len: "a < length (heap ?s3)"
      using Cons.prems h3 by simp
    have "tabulate_loop ev lo hi pt a (x # xs) s = tabulate_loop ev lo hi pt a xs ?s3"
      using x Inr r by simp
    also have "\<dots> = (outcome ev pt xs,
        ?s3\<lparr>heap := (heap ?s3)[a := fill ev lo hi pt xs (heap ?s3 ! a)],
            calls := calls ?s3 @ called ev pt xs\<rparr>)"
      by (rule Cons.IH [OF len])
    also have "\<dots> = (outcome ev pt (x # xs),
        s\<lparr>heap := (heap s)[a := fill ev lo hi pt (x # xs) (heap s ! a)],
          calls := calls s @ called ev pt (x # xs)\<rparr>)"
      using Cons.prems x Inr r by (simp add: at_set_def write_result_at)
    finally show ?thesis .
  qed
qed

lemma tabulate_results_char:
  "tabulate_results ev lo hi self s =
     (case outcome ev (parse_tree self) (snapshot (heap s ! test_df self)) of
        Inl e \<Rightarrow> Inl e
      | Inr u \<Rightarrow> Inr (length (heap s)),
      \<lparr>heap = heap s @ [fill ev lo hi (parse_tree self) (snapshot (heap s ! test_df self))
                         (snapshot (heap s ! test_df self))],
       calls = calls s @ called ev (parse_tree self) (snapshot (heap s ! test_df self))\<rparr>)"
proof -
  let ?a = "length (heap s)"
  let ?df4 = "snapshot (heap s ! test_df self)"
  let ?s4 = "\<lparr>heap = heap s @ [?df4], calls = calls s\<rparr>"
  have s4: "setitem ?a ''PredictedSpecies'' PyNone
              (setitem ?a ''PredictedValue'' PyNone
                (setitem ?a ''Correct'' PyNone (s\<lparr>heap := heap s @ [heap s ! test_df self]\<rparr>))) = ?s4"
    by (simp add: setitem_def set_column_def snapshot_def with_result_columns_def split_def comp_def)
  have loop: "tabulate_loop ev lo hi (parse_tree self) ?a ?df4 ?s4 =
     (outcome ev (parse_tree self) ?df4,
      \<lparr>heap = heap s @ [fill ev lo hi (parse_tree self) ?df4 ?df4],
       calls = calls s @ called ev (parse_tree self) ?df4\<rparr>)"
    by (subst tabulate_loop_char) simp_all
  show ?thesis
    by (simp add: tabulate_results_def df_copy_def s4 iterrows_def loop split: sum.splits)
qed

subsection \<open>Outcome and calls\<close>

lemma outcome_Inr_iff:
  "outcome ev pt xs = Inr u \<longleftrightarrow> (\<forall>x\<in>set xs. \<exists>c v. ev pt (snd x) = Inr (c, v))"
  by (induction xs) (auto split: sum.splits)

lemma called_success:
  "outcome ev pt xs = Inr u \<Longrightarrow> called ev pt xs = map snd xs"
  by (induction xs) (auto split: sum.splits)

lemma first_failure:
  "k < length xs \<Longrightarrow> ev pt (snd (xs ! k)) = Inl e \<Longrightarrow>
   \<forall>j<k. \<exists>c v. ev pt (snd (xs ! j)) = Inr (c, v) \<Longrightarrow>
   outcome ev pt xs = Inl e \<and> called ev pt xs = map snd (take (Suc k) xs)"
proof (induction xs arbitrary: k)
  case Nil
  then show ?case by simp
next
  case (Cons x xs)
  obtain idx row where x: "x = (idx, row)" by (cases x)
  show ?case
  proof (cases k)
    case 0
    with Cons.prems x show ?thesis by simp
  next
    case (Suc m)
    from Cons.prems(3) Suc have "\<exists>c v. ev pt (snd ((x # xs) ! 0)) = Inr (c, v)" by blast
    then obtain c v where hd: "ev pt row = Inr (c, v)" using x by auto
    have m: "m < length xs" using Cons.prems(1) Suc by simp
    have f: "ev pt (snd (xs ! m)) = Inl e" using Cons.prems(2) Suc by simp
    have "\<forall>j<m. \<exists>c v. ev pt (snd (xs ! j)) = Inr (c, v)"
    proof (intro allI impI)
      fix j assume "j < m"
      then have "Suc j < k" using Suc by simp
      with Cons.prems(3) have "\<exists>c v. ev pt (snd ((x # xs) ! Suc j)) = Inr (c, v)" by blast
      then show "\<exists>c v. ev pt (snd (xs ! j)) = Inr (c, v)" by simp
    qed
    from Cons.IH [OF m f this] show ?thesis
      using x hd Suc by simp
  qed
qed

lemma snapshot_rows:
  "map snd (take n (snapshot df)) = map (with_result_columns \<circ> snd) (take n df)"
  by (simp add: snapshot_def take_map split_def comp_def)

lemma tabulate_results_Inr:
  assumes "tabulate_results ev lo hi self s = (Inr a, s')"
  shows "a = length (heap s)"
    and "outcome ev (parse_tree self) (snapshot (heap s ! test_df self)) = Inr ()"
    and "heap s' = heap s @ [fill ev lo hi (parse_tree self) (snapshot (heap s ! test_df self))
                               (snapshot (heap s ! test_df self))]"
    and "calls s' = calls s @ map snd (snapshot (heap s ! test_df self))"
    and "heap s' ! a = fill ev lo hi (parse_tree self) (snapshot (heap s ! test_df self))
                         (snapshot (heap s ! test_df self))"
proof -
  let ?snap = "snapshot (heap s ! test_df self)"
  from assms have fst: "(case outcome ev (parse_tree self) ?snap of
        Inl e \<Rightarrow> Inl e | Inr u \<Rightarrow> Inr (length (heap s))) = Inr a"
    and snd: "s' = \<lparr>heap = heap s @ [fill ev lo hi (parse_tree self) ?snap ?snap],
                    calls = calls s @ called ev (parse_tree self) ?snap\<rparr>"
    by (simp_all add: tabulate_results_char)
  from fst show a: "a = length (heap s)" and ok: "outcome ev (parse_tree self) ?snap = Inr ()"
    by (auto split: sum.splits)
  from snd show h: "heap s' = heap s @ [fill ev lo hi (parse_tree self) ?snap ?snap]"
    by simp
  from snd show "calls s' = calls s @ map snd ?snap"
    by (simp add: called_success [OF ok])
  from a h show "heap s' ! a = fill ev lo hi (parse_tree self) ?snap ?snap"
    by simp
qed

subsection \<open>Labels, length and the original columns\<close>

lemma write_result_labels: "map fst (write_result lo hi idx c v df) = map fst df"
  by (induction df) (auto simp: write_result_def)

lemma fill_labels: "map fst (fill ev lo hi pt xs df) = map fst df"
  by (induction xs arbitrary: df) (auto simp: write_result_labels split: sum.splits)

lemma original_fields_update:
  "col \<in> set derived_columns \<Longrightarrow> original_fields (AList.update col v row) = original_fields row"
  by (induction row) (auto simp: original_fields_def)

lemma original_fields_store_result:
  "original_fields (store_result lo hi c v row) = original_fields row"
  by (simp add: store_result_def original_fields_update derived_columns_def)

lemma original_fields_with_result_columns:
  "original_fields (with_result_columns row) = original_fields row"
  by (simp add: with_result_columns_def original_fields_update derived_columns_def)

lemma write_result_original:
  "map (original_fields \<circ> snd) (write_result lo hi idx c v df) = map (original_fields \<circ> snd) df"
  by (induction df) (auto simp: write_result_def original_fields_store_result)

lemma fill_original:
  "map (original_fields \<circ> snd) (fill ev lo hi pt xs df) = map (original_fields \<circ> snd) df"
  by (induction xs arbitrary: df) (auto simp: write_result_original split: sum.splits)

lemma snapshot_labels: "map fst (snapshot df) = map fst df"
  by (induction df) (auto simp: snapshot_def)

lemma snapshot_original: "map (original_fields \<circ> snd) (snapshot df) = map (original_fields \<circ> snd) df"
  by (induction df) (auto simp: snapshot_def original_fields_with_result_columns)

lemma columns_with_result_columns:
  "fst ` set (with_result_columns row) = fst ` set row \<union> set derived_columns"
  by (auto simp: with_result_columns_def derived_columns_def AList.dom_update)

lemma columns_store_result:
  "fst ` set (store_result lo hi c v row) = fst ` set row \<union> set derived_columns"
  by (auto simp: store_result_def derived_columns_def AList.dom_update)

lemma write_result_nth:
  "k < length df \<Longrightarrow>
   write_result lo hi idx c v df ! k =
     (if fst (df ! k) = idx then (idx, store_result lo hi c v (snd (df ! k))) else df ! k)"
  by (simp add: write_result_def split_def)

lemma length_write_result: "length (write_result lo hi idx c v df) = length df"
  by (simp add: write_result_def)

lemma length_fill: "length (fill ev lo hi pt xs df) = length df"
  by (induction xs arbitrary: df) (auto simp: length_write_result split: sum.splits)

lemma fill_columns:
  "k < length df \<Longrightarrow> set derived_columns \<subseteq> fst ` set (snd (df ! k)) \<Longrightarrow>
   fst ` set (snd (fill ev lo hi pt xs df ! k)) = fst ` set (snd (df ! k))"
proof (induction xs arbitrary: df)
  case Nil
  then show ?case by simp
next
  case (Cons x xs)
  obtain idx row where x: "x = (idx, row)" by (cases x)
  show ?case
  proof (cases "ev pt row")
    case (Inl e)
    with x show ?thesis by simp
  next
    case (Inr r)
    obtain c v where r: "r = (c, v)" by (cases r)
    let ?df = "write_result lo hi idx c v df"
    have k: "k < length ?df" using Cons.prems(1) by (simp add: length_write_result)
    have same: "fst ` set (snd (?df ! k)) = fst ` set (snd (df ! k))"
      using Cons.prems by (auto simp: write_result_nth columns_store_result)
    have "fst ` set (snd (fill ev lo hi pt xs ?df ! k)) = fst ` set (snd (?df ! k))"
      using Cons.prems(2) by (intro Cons.IH [OF k]) (simp add: same)
    then show ?thesis
      using x Inr r same by simp
  qed
qed

lemma snapshot_nth:
  "k < length df \<Longrightarrow> snapshot df ! k = (fst (df ! k), with_result_columns (snd (df ! k)))"
  by (simp add: snapshot_def split_def)

lemma length_snapshot: "length (snapshot df) = length df"
  by (simp add: snapshot_def)

subsection \<open>What the loop writes\<close>

lemma fill_untouched:
  "k < length df \<Longrightarrow> fst (df ! k) \<notin> fst ` set xs \<Longrightarrow> fill ev lo hi pt xs df ! k = df ! k"
proof (induction xs arbitrary: df)
  case Nil
  then show ?case by simp
next
  case (Cons x xs)
  obtain idx row where x: "x = (idx, row)" by (cases x)
  show ?case
  proof (cases "ev pt row")
    case (Inl e)
    with x show ?thesis by simp
  next
    case (Inr r)
    obtain c v where r: "r = (c, v)" by (cases r)
    let ?df = "write_result lo hi idx c v df"
    have k: "k < length ?df" using Cons.prems(1) by (simp add: length_write_result)
    have neq: "fst (df ! k) \<noteq> idx" using Cons.prems(2) x by auto
    have same: "?df ! k = df ! k"
      using Cons.prems(1) neq by (simp add: write_result_nth)
    have "fill ev lo hi pt xs ?df ! k = ?df ! k"
      using Cons.prems(2) by (intro Cons.IH [OF k]) (simp add: same)
    then show ?thesis
      using x Inr r same by simp
  qed
qed

lemma fill_distinct:
  "distinct (map fst xs) \<Longrightarrow> j < length xs \<Longrightarrow> k < length df \<Longrightarrow>
   fst (df ! k) = fst (xs ! j) \<Longrightarrow>
   \<forall>x\<in>set xs. \<exists>c v. ev pt (snd x) = Inr (c, v) \<Longrightarrow>
   ev pt (snd (xs ! j)) = Inr (c, v) \<Longrightarrow>
   fill ev lo hi pt xs df ! k = (fst (df ! k), store_result lo hi c v (snd (df ! k)))"
proof (induction xs arbitrary: df j)
  case Nil
  then show ?case by simp
next
  case (Cons x xs)
  obtain idx row where x: "x = (idx, row)" by (cases x)
  from Cons.prems(5) x obtain c0 v0 where hd: "ev pt row = Inr (c0, v0)" by auto
  let ?df = "write_result lo hi idx c0 v0 df"
  have k: "k < length ?df" using Cons.prems(3) by (simp add: length_write_result)
  have step: "fill ev lo hi pt (x # xs) df = fill ev lo hi pt xs ?df"
    using x hd by simp
  show ?case
  proof (cases j)
    case 0
    then have lab: "fst (df ! k) = idx" and cv: "c0 = c" "v0 = v"
      using Cons.prems(4,6) x hd by auto
    have "idx \<notin> fst ` set xs" using Cons.prems(1) x by auto
    then have "fst (?df ! k) \<notin> fst ` set xs"
      using Cons.prems(3) lab by (simp add: write_result_nth)
    then have "fill ev lo hi pt xs ?df ! k = ?df ! k"
      by (rule fill_untouched [OF k])
    then show ?thesis
      using step Cons.prems(3) lab cv by (simp add: write_result_nth)
  next
    case (Suc m)
    have m: "m < length xs" using Cons.prems(2) Suc by simp
    have "fst (xs ! m) \<in> set (map fst xs)" using m by (metis length_map nth_map nth_mem)
    then have neq: "fst (xs ! m) \<noteq> idx" using Cons.prems(1) x by auto
    have lab: "fst (df ! k) = fst (xs ! m)" using Cons.prems(4) Suc by simp
    have same: "?df ! k = df ! k"
      using Cons.prems(3) neq lab by (simp add: write_result_nth)
    have "fill ev lo hi pt xs ?df ! k = (fst (?df ! k), store_result lo hi c v (snd (?df ! k)))"
    proof (rule Cons.IH [OF _ m k])
      show "distinct (map fst xs)" using Cons.prems(1) by simp
      show "fst (?df ! k) = fst (xs ! m)" using same lab by simp
      show "\<forall>x\<in>set xs. \<exists>c v. ev pt (snd x) = Inr (c, v)" using Cons.prems(5) by simp
      show "ev pt (snd (xs ! m)) = Inr (c, v)" using Cons.prems(6) Suc by simp
    qed
    then show ?thesis using step same by simp
  qed
qed

lemma map_of_store_result:
  "map_of (store_result lo hi c v row) ''Correct'' = Some (PyBool c)
   \<and> map_of (store_result lo hi c v row) ''PredictedValue'' = Some (PyNum v)
   \<and> map_of (store_result lo hi c v row) ''PredictedSpecies''
       = Some (PyStr (predicted_species lo hi v))"
  by (simp add: store_result_def AList.update_conv')

lemma fill_reported:
  "k < length df \<Longrightarrow> fst (df ! k) \<in> fst ` set xs \<Longrightarrow>
   \<forall>x\<in>set xs. \<exists>c v. ev pt (snd x) = Inr (c, v) \<Longrightarrow>
   \<exists>row c v. (fst (df ! k), row) \<in> set xs \<and> ev pt row = Inr (c, v)
     \<and> map_of (snd (fill ev lo hi pt xs df ! k)) ''Correct'' = Some (PyBool c)
     \<and> map_of (snd (fill ev lo hi pt xs df ! k)) ''PredictedValue'' = Some (PyNum v)
     \<and> map_of (snd (fill ev lo hi pt xs df ! k)) ''PredictedSpecies''
         = Some (PyStr (predicted_species lo hi v))"
proof (induction xs arbitrary: df)
  case Nil
  then show ?case by simp
next
  case (Cons x xs)
  obtain idx row where x: "x = (idx, row)" by (cases x)
  from Cons.prems(3) x obtain c0 v0 where hd: "ev pt row = Inr (c0, v0)" by auto
  let ?df = "write_result lo hi idx c0 v0 df"
  have k: "k < length ?df" using Cons.prems(1) by (simp add: length_write_result)
  have step: "fill ev lo hi pt (x # xs) df = fill ev lo hi pt xs ?df"
    using x hd by simp
  have lab: "fst (?df ! k) = fst (df ! k)"
    using Cons.prems(1) by (simp add: write_result_nth)
  show ?case
  proof (cases "fst (df ! k) \<in> fst ` set xs")
    case True
    have "\<exists>row c v. (fst (?df ! k), row) \<in> set xs \<and> ev pt row = Inr (c, v)
     \<and> map_of (snd (fill ev lo hi pt xs ?df ! k)) ''Correct'' = Some (PyBool c)
     \<and> map_of (snd (fill ev lo hi pt xs ?df ! k)) ''PredictedValue'' = Some (PyNum v)
     \<and> map_of (snd (fill ev lo hi pt xs ?df ! k)) ''PredictedSpecies''
         = Some (PyStr (predicted_species lo hi v))"
      using True Cons.prems(3) by (intro Cons.IH [OF k]) (simp_all add: lab)
    then show ?thesis
      unfolding step lab by auto
  next
    case False
    then have idx: "fst (df ! k) = idx" using Cons.prems(2) x by auto
    have "fill ev lo hi pt xs ?df ! k = ?df ! k"
      using False by (intro fill_untouched [OF k]) (simp add: lab)
    then have "fill ev lo hi pt (x # xs) df ! k = (idx, store_result lo hi c0 v0 (snd (df ! k)))"
      using step Cons.prems(1) idx by (simp add: write_result_nth)
    then show ?thesis
      using x hd idx map_of_store_result [of lo hi c0 v0 "snd (df ! k)"] by auto
  qed
qed

lemma update_append_fresh:
  "col \<notin> fst ` set row \<Longrightarrow> AList.update col v (row @ ys) = row @ AList.update col v ys"
  by (induction row) auto

lemma store_result_fresh:
  "set derived_columns \<inter> fst ` set row = {} \<Longrightarrow>
   store_result lo hi c v (with_result_columns row) =
     row @ [(''Correct'', PyBool c), (''PredictedValue'', PyNum v),
            (''PredictedSpecies'', PyStr (predicted_species lo hi v))]"
proof -
  assume "set derived_columns \<inter> fst ` set row = {}"
  then have f: "''Correct'' \<notin> fst ` set row" "''PredictedValue'' \<notin> fst ` set row"
    "''PredictedSpecies'' \<notin> fst ` set row"
    by (auto simp: derived_columns_def)
  have a: "\<And>col v ys. col \<notin> fst ` set row \<Longrightarrow> AList.update col v (row @ ys) = row @ AList.update col v ys"
    by (rule update_append_fresh)
  have b: "\<And>col v. col \<notin> fst ` set row \<Longrightarrow> AList.update col v row = row @ [(col, v)]"
    using a [of _ _ "[]"] by simp
  show ?thesis
    using f by (simp add: store_result_def with_result_columns_def a b)
qed

lemma table_rows_reported:
  assumes "tabulate_results ev lo hi self s = (Inr a, s')"
    and "(idx, r) \<in> set (heap s' ! a)"
  shows "\<exists>row c v. (idx, row) \<in> set (heap s ! test_df self)
           \<and> ev (parse_tree self) (with_result_columns row) = Inr (c, v)
           \<and> map_of r ''Correct'' = Some (PyBool c)
           \<and> map_of r ''PredictedValue'' = Some (PyNum v)
           \<and> map_of r ''PredictedSpecies'' = Some (PyStr (predicted_species lo hi v))"
proof -
  let ?df = "heap s ! test_df self"
  let ?snap = "snapshot ?df"
  let ?out = "fill ev lo hi (parse_tree self) ?snap ?snap"
  note run = tabulate_results_Inr [OF assms(1)]
  from assms(2) run(5) obtain k where k: "k < length ?out" and p: "?out ! k = (idx, r)"
    by (auto simp: in_set_conv_nth)
  have ks: "k < length ?snap" using k by (simp add: length_fill)
  have "map fst ?out ! k = map fst ?snap ! k" by (simp add: fill_labels)
  then have lab: "fst (?snap ! k) = idx" using k ks p by simp
  have mem: "fst (?snap ! k) \<in> fst ` set ?snap" using ks by simp
  have ok: "\<forall>x\<in>set ?snap. \<exists>c v. ev (parse_tree self) (snd x) = Inr (c, v)"
    using run(2) by (simp add: outcome_Inr_iff)
  have "\<exists>row c v. (fst (?snap ! k), row) \<in> set ?snap \<and> ev (parse_tree self) row = Inr (c, v)
     \<and> map_of (snd (?out ! k)) ''Correct'' = Some (PyBool c)
     \<and> map_of (snd (?out ! k)) ''PredictedValue'' = Some (PyNum v)
     \<and> map_of (snd (?out ! k)) ''PredictedSpecies'' = Some (PyStr (predicted_species lo hi v))"
    using ks mem ok by (rule fill_reported)
  with p lab
  obtain row' c v where r': "(idx, row') \<in> set ?snap"
    and e: "ev (parse_tree self) row' = Inr (c, v)"
    and m: "map_of r ''Correct'' = Some (PyBool c)"
       "map_of r ''PredictedValue'' = Some (PyNum v)"
       "map_of r ''PredictedSpecies'' = Some (PyStr (predicted_species lo hi v))"
    by auto
  from r' obtain row where "(idx, row) \<in> set ?df" and "row' = with_result_columns row"
    by (auto simp: snapshot_def)
  with e m show ?thesis by blast
qed

lemma COLOR_MAP_keys:
  "fst ` set COLOR_MAP = {''Iris-setosa'', ''Iris-versicolor'', ''Iris-virginica''}"
  by (simp add: COLOR_MAP_def insert_commute)

lemma predicted_species_key: "predicted_species lo hi res \<in> fst ` set COLOR_MAP"
  by (simp add: COLOR_MAP_keys predicted_species_def)

subsection \<open>The sample runs\<close>

lemma demo_run:
  "tabulate_results demo_evaluate_row 2 5 demo_self demo_state =
     (Inr 1, \<lparr>heap = [demo_frame, demo_table], calls = map snd (snapshot demo_frame)\<rparr>)"
  by (simp add: tabulate_results_def df_copy_def setitem_def set_column_def iterrows_def
      at_set_def at_df_def predicted_species_def demo_evaluate_row_def demo_self_def
      demo_state_def demo_frame_def demo_table_def snapshot_def with_result_columns_def)

lemma demo_twin_run:
  "tabulate_results demo_evaluate_row 2 5 demo_self demo_twin_state =
     (Inr 1, \<lparr>heap = [demo_twin_frame, demo_twin_table],
              calls = map snd (snapshot demo_twin_frame)\<rparr>)"
  by (simp add: tabulate_results_def df_copy_def setitem_def set_column_def iterrows_def
      at_set_def at_df_def predicted_species_def demo_evaluate_row_def demo_self_def
      demo_twin_state_def demo_twin_frame_def demo_twin_table_def snapshot_def
      with_result_columns_def)

subsection \<open>What a returned table holds\<close>

text \<open>
  \<open>df.at[idx, col] = v\<close> writes every row labelled \<open>idx\<close>, so a row of the table holds
  what the predictor returned for the last row of the test set with the same label: for
  the row itself when no later row repeats its label.
\<close>

lemma fill_last_write:
  "k < length df \<Longrightarrow> j < length xs \<Longrightarrow> fst (xs ! j) = fst (df ! k) \<Longrightarrow>
   \<forall>i<length xs. j < i \<longrightarrow> fst (xs ! i) \<noteq> fst (df ! k) \<Longrightarrow>
   \<forall>x\<in>set xs. \<exists>c v. ev pt (snd x) = Inr (c, v) \<Longrightarrow>
   ev pt (snd (xs ! j)) = Inr (c, v) \<Longrightarrow>
   map_of (snd (fill ev lo hi pt xs df ! k)) ''Correct'' = Some (PyBool c)
   \<and> map_of (snd (fill ev lo hi pt xs df ! k)) ''PredictedValue'' = Some (PyNum v)
   \<and> map_of (snd (fill ev lo hi pt xs df ! k)) ''PredictedSpecies''
       = Some (PyStr (predicted_species lo hi v))"
proof (induction xs arbitrary: df j)
  case Nil
  then show ?case by simp
next
  case (Cons x xs)
  obtain idx row where x: "x = (idx, row)" by (cases x)
  from Cons.prems(5) x obtain c0 v0 where hd: "ev pt row = Inr (c0, v0)" by auto
  let ?df = "write_result lo hi idx c0 v0 df"
  have k: "k < length ?df" using Cons.prems(1) by (simp add: length_write_result)
  have step: "fill ev lo hi pt (x # xs) df = fill ev lo hi pt xs ?df"
    using x hd by simp
  have lab: "fst (?df ! k) = fst (df ! k)"
    using Cons.prems(1) by (simp add: write_result_nth)
  show ?case
  proof (cases j)
    case 0
    then have idx: "fst (df ! k) = idx" and cv: "c0 = c" "v0 = v"
      using Cons.prems(3,6) x hd by auto
    have "fst (df ! k) \<notin> fst ` set xs"
    proof
      assume "fst (df ! k) \<in> fst ` set xs"
      then obtain i where i: "i < length xs" and "fst (xs ! i) = fst (df ! k)"
        by (auto simp: in_set_conv_nth)
      then have "Suc i < length (x # xs)" "j < Suc i" "fst ((x # xs) ! Suc i) = fst (df ! k)"
        using 0 by simp_all
      with Cons.prems(4) show False by blast
    qed
    then have "fill ev lo hi pt xs ?df ! k = ?df ! k"
      by (intro fill_untouched [OF k]) (simp add: lab)
    then have "fill ev lo hi pt (x # xs) df ! k = (idx, store_result lo hi c v (snd (df ! k)))"
      using step Cons.prems(1) idx cv by (simp add: write_result_nth)
    then show ?thesis
      using map_of_store_result [of lo hi c v "snd (df ! k)"] by simp
  next
    case (Suc m)
    have m: "m < length xs" using Cons.prems(2) Suc by simp
    have l: "fst (xs ! m) = fst (?df ! k)" using Cons.prems(3) Suc lab by simp
    have later: "\<forall>i<length xs. m < i \<longrightarrow> fst (xs ! i) \<noteq> fst (?df ! k)"
    proof (intro allI impI)
      fix i assume "i < length xs" "m < i"
      then have "Suc i < length (x # xs)" "j < Suc i" using Suc by simp_all
      with Cons.prems(4) have "fst ((x # xs) ! Suc i) \<noteq> fst (df ! k)" by blast
      then show "fst (xs ! i) \<noteq> fst (?df ! k)" by (simp add: lab)
    qed
    have ok: "\<forall>x\<in>set xs. \<exists>c v. ev pt (snd x) = Inr (c, v)" using Cons.prems(5) by simp
    have e: "ev pt (snd (xs ! m)) = Inr (c, v)" using Cons.prems(6) Suc by simp
    have "map_of (snd (fill ev lo hi pt xs ?df ! k)) ''Correct'' = Some (PyBool c)
   \<and> map_of (snd (fill ev lo hi pt xs ?df ! k)) ''PredictedValue'' = Some (PyNum v)
   \<and> map_of (snd (fill ev lo hi pt xs ?df ! k)) ''PredictedSpecies''
       = Some (PyStr (predicted_species lo hi v))"
      using k m l later ok e by (rule Cons.IH)
    then show ?thesis by (simp only: step)
  qed
qed

lemma table_row_last_write:
  assumes run: "tabulate_results ev lo hi self s = (Inr a, s')"
    and k: "k < length (heap s ! test_df self)"
    and j: "j < length (heap s ! test_df self)"
    and same: "fst (heap s ! test_df self ! j) = fst (heap s ! test_df self ! k)"
    and last: "\<forall>i<length (heap s ! test_df self).
                 j < i \<longrightarrow> fst (heap s ! test_df self ! i) \<noteq> fst (heap s ! test_df self ! k)"
  shows "\<exists>c v. ev (parse_tree self) (with_result_columns (snd (heap s ! test_df self ! j)))
                  = Inr (c, v)
           \<and> map_of (snd (heap s' ! a ! k)) ''Correct'' = Some (PyBool c)
           \<and> map_of (snd (heap s' ! a ! k)) ''PredictedValue'' = Some (PyNum v)
           \<and> map_of (snd (heap s' ! a ! k)) ''PredictedSpecies''
               = Some (PyStr (predicted_species lo hi v))"
proof -
  let ?df = "heap s ! test_df self"
  let ?snap = "snapshot ?df"
  note r = tabulate_results_Inr [OF run]
  have ok: "\<forall>x\<in>set ?snap. \<exists>c v. ev (parse_tree self) (snd x) = Inr (c, v)"
    using r(2) by (simp add: outcome_Inr_iff)
  have ks: "k < length ?snap" and js: "j < length ?snap"
    using k j by (simp_all add: length_snapshot)
  have sj: "?snap ! j = (fst (?df ! j), with_result_columns (snd (?df ! j)))"
    using j by (rule snapshot_nth)
  have sk: "?snap ! k = (fst (?df ! k), with_result_columns (snd (?df ! k)))"
    using k by (rule snapshot_nth)
  from ok js obtain c v where e: "ev (parse_tree self) (snd (?snap ! j)) = Inr (c, v)"
    by (meson nth_mem)
  have l: "fst (?snap ! j) = fst (?snap ! k)" using same by (simp add: sj sk)
  have later: "\<forall>i<length ?snap. j < i \<longrightarrow> fst (?snap ! i) \<noteq> fst (?snap ! k)"
    using last by (simp add: length_snapshot snapshot_nth sk)
  have "map_of (snd (fill ev lo hi (parse_tree self) ?snap ?snap ! k)) ''Correct'' = Some (PyBool c)
   \<and> map_of (snd (fill ev lo hi (parse_tree self) ?snap ?snap ! k)) ''PredictedValue'' = Some (PyNum v)
   \<and> map_of (snd (fill ev lo hi (parse_tree self) ?snap ?snap ! k)) ''PredictedSpecies''
       = Some (PyStr (predicted_species lo hi v))"
    using ks js l later ok e by (rule fill_last_write)
  moreover have "ev (parse_tree self) (with_result_columns (snd (?df ! j))) = Inr (c, v)"
    using e by (simp add: sj)
  ultimately show ?thesis by (simp add: r(5))
qed

text \<open>The predictor is called once for every row, in order, whatever the labels.\<close>

lemma tabulate_calls_every_row:
  assumes run: "tabulate_results ev lo hi self s = (Inr a, s')"
  shows "calls s' = calls s @ map (with_result_columns \<circ> snd) (heap s ! test_df self)"
  using tabulate_results_Inr(4) [OF run] snapshot_rows [of "length (heap s ! test_df self)" "heap s ! test_df self"]
  by (simp add: length_snapshot)

text \<open>
  In every row, \<open>Correct\<close> and \<open>PredictedValue\<close> are the pair returned in one call on a
  row with the same label, and \<open>PredictedSpecies\<close> is the class of \<open>PredictedValue\<close>:
  rows with the same value have the same class, also across two runs.
\<close>

lemma class_from_score_alone:
  assumes run: "tabulate_results ev lo hi self s = (Inr a, s')"
    and other: "tabulate_results ev2 lo hi self2 s2 = (Inr a2, s2')"
  shows "(\<forall>(idx, r)\<in>set (heap s' ! a). \<exists>row c v.
            (idx, row) \<in> set (heap s ! test_df self)
            \<and> ev (parse_tree self) (with_result_columns row) = Inr (c, v)
            \<and> map_of r ''Correct'' = Some (PyBool c)
            \<and> map_of r ''PredictedValue'' = Some (PyNum v)
            \<and> map_of r ''PredictedSpecies'' = Some (PyStr (predicted_species lo hi v)))
       \<and> (\<forall>(idx, r)\<in>set (heap s' ! a). \<forall>(idx2, r2)\<in>set (heap s2' ! a2).
            map_of r ''PredictedValue'' = map_of r2 ''PredictedValue''
            \<longrightarrow> map_of r ''PredictedSpecies'' = map_of r2 ''PredictedSpecies'')
       \<and> (distinct (map fst (heap s ! test_df self)) \<longrightarrow>
            (\<forall>k<length (heap s ! test_df self). \<exists>c v.
               ev (parse_tree self) (with_result_columns (snd (heap s ! test_df self ! k)))
                 = Inr (c, v)
               \<and> map_of (snd (heap s' ! a ! k)) ''Correct'' = Some (PyBool c)
               \<and> map_of (snd (heap s' ! a ! k)) ''PredictedValue'' = Some (PyNum v)))"
proof (intro conjI)
  show "\<forall>(idx, r)\<in>set (heap s' ! a). \<exists>row c v.
            (idx, row) \<in> set (heap s ! test_df self)
            \<and> ev (parse_tree self) (with_result_columns row) = Inr (c, v)
            \<and> map_of r ''Correct'' = Some (PyBool c)
            \<and> map_of r ''PredictedValue'' = Some (PyNum v)
            \<and> map_of r ''PredictedSpecies'' = Some (PyStr (predicted_species lo hi v))"
    using table_rows_reported [OF run] by blast
next
  show "\<forall>(idx, r)\<in>set (heap s' ! a). \<forall>(idx2, r2)\<in>set (heap s2' ! a2).
            map_of r ''PredictedValue'' = map_of r2 ''PredictedValue''
            \<longrightarrow> map_of r ''PredictedSpecies'' = map_of r2 ''PredictedSpecies''"
  proof (clarify)
    fix idx r idx2 r2
    assume m: "(idx, r) \<in> set (heap s' ! a)" and m2: "(idx2, r2) \<in> set (heap s2' ! a2)"
      and same: "map_of r ''PredictedValue'' = map_of r2 ''PredictedValue''"
    from table_rows_reported [OF run m] obtain v where
      v: "map_of r ''PredictedValue'' = Some (PyNum v)"
         "map_of r ''PredictedSpecies'' = Some (PyStr (predicted_species lo hi v))"
      by blast
    from table_rows_reported [OF other m2] obtain w where
      w: "map_of r2 ''PredictedValue'' = Some (PyNum w)"
         "map_of r2 ''PredictedSpecies'' = Some (PyStr (predicted_species lo hi w))"
      by blast
    from same v(1) w(1) have "v = w" by simp
    with v(2) w(2) show "map_of r ''PredictedSpecies'' = map_of r2 ''PredictedSpecies''"
      by simp
  qed
next
  show "distinct (map fst (heap s ! test_df self)) \<longrightarrow>
            (\<forall>k<length (heap s ! test_df self). \<exists>c v.
               ev (parse_tree self) (with_result_columns (snd (heap s ! test_df self ! k)))
                 = Inr (c, v)
               \<and> map_of (snd (heap s' ! a ! k)) ''Correct'' = Some (PyBool c)
               \<and> map_of (snd (heap s' ! a ! k)) ''PredictedValue'' = Some (PyNum v))"
  proof (intro impI allI)
    fix k
    assume d: "distinct (map fst (heap s ! test_df self))"
      and k: "k < length (heap s ! test_df self)"
    let ?df = "heap s ! test_df self"
    let ?snap = "snapshot ?df"
    let ?out = "fill ev lo hi (parse_tree self) ?snap ?snap"
    note r = tabulate_results_Inr [OF run]
    have ok: "\<forall>x\<in>set ?snap. \<exists>c v. ev (parse_tree self) (snd x) = Inr (c, v)"
      using r(2) by (simp add: outcome_Inr_iff)
    have ds: "distinct (map fst ?snap)" using d by (simp add: snapshot_labels)
    have ks: "k < length ?snap" using k by (simp add: length_snapshot)
    have sk: "?snap ! k = (fst (?df ! k), with_result_columns (snd (?df ! k)))"
      using k by (rule snapshot_nth)
    from ok ks obtain c v where e: "ev (parse_tree self) (snd (?snap ! k)) = Inr (c, v)"
      by (meson nth_mem)
    have "?out ! k = (fst (?snap ! k), store_result lo hi c v (snd (?snap ! k)))"
      using ds ks ks refl ok e by (rule fill_distinct)
    then have "snd (heap s' ! a ! k) = store_result lo hi c v (snd (?snap ! k))"
      by (simp add: r(5))
    then have "map_of (snd (heap s' ! a ! k)) ''Correct'' = Some (PyBool c)
             \<and> map_of (snd (heap s' ! a ! k)) ''PredictedValue'' = Some (PyNum v)"
      using map_of_store_result [of lo hi c v "snd (?snap ! k)"] by simp
    moreover have "ev (parse_tree self) (with_result_columns (snd (?df ! k))) = Inr (c, v)"
      using e by (simp add: sk)
    ultimately show "\<exists>c v.
               ev (parse_tree self) (with_result_columns (snd (heap s ! test_df self ! k)))
                 = Inr (c, v)
               \<and> map_of (snd (heap s' ! a ! k)) ''Correct'' = Some (PyBool c)
               \<and> map_of (snd (heap s' ! a ! k)) ''PredictedValue'' = Some (PyNum v)"
      by blast
  qed
qed

lemma class_from_score_alone_example:
  "tabulate_results demo_evaluate_row 2 5 demo_self demo_state
     = (Inr 1, \<lparr>heap = [demo_frame, demo_table], calls = map snd (snapshot demo_frame)\<rparr>)
   \<and> tabulate_results demo_evaluate_row 2 5 demo_self demo_twin_state
     = (Inr 1, \<lparr>heap = [demo_twin_frame, demo_twin_table],
              calls = map snd (snapshot demo_twin_frame)\<rparr>)
   \<and> distinct (map fst (heap demo_state ! test_df demo_self))
   \<and> (\<exists>c v. demo_evaluate_row (parse_tree demo_self)
               (with_result_columns (snd (demo_frame ! 2))) = Inr (c, v)
        \<and> map_of (snd (demo_table ! 2)) ''Correct'' = Some (PyBool c)
        \<and> map_of (snd (demo_table ! 2)) ''PredictedValue'' = Some (PyNum v))"
proof -
  have d: "distinct (map fst (heap demo_state ! test_df demo_self))"
    by (simp add: demo_state_def demo_self_def demo_frame_def)
  have k: "(2::nat) < length (heap demo_state ! test_df demo_self)"
    by (simp add: demo_state_def demo_self_def demo_frame_def)
  from class_from_score_alone [OF demo_run demo_twin_run] d k
  have "\<exists>c v. demo_evaluate_row (parse_tree demo_self)
               (with_result_columns (snd (heap demo_state ! test_df demo_self ! 2))) = Inr (c, v)
        \<and> map_of (snd ([demo_frame, demo_table] ! 1 ! 2)) ''Correct'' = Some (PyBool c)
        \<and> map_of (snd ([demo_frame, demo_table] ! 1 ! 2)) ''PredictedValue'' = Some (PyNum v)"
    by (simp del: One_nat_def)
  then have "\<exists>c v. demo_evaluate_row (parse_tree demo_self)
               (with_result_columns (snd (demo_frame ! 2))) = Inr (c, v)
        \<and> map_of (snd (demo_table ! 2)) ''Correct'' = Some (PyBool c)
        \<and> map_of (snd (demo_table ! 2)) ''PredictedValue'' = Some (PyNum v)"
    by (simp add: demo_state_def demo_self_def)
  with demo_run demo_twin_run d show ?thesis by blast
qed

text \<open>
  With pairwise distinct labels, row \<open>k\<close> of the table is row \<open>k\<close> of the test set with
  the three columns filled from the call on that row; on an input row that has none of
  the three names they come last.
\<close>

lemma tabulate_records_distinct_labels:
  assumes run: "tabulate_results ev lo hi self s = (Inr a, s')"
  shows "calls s' = calls s @ map (with_result_columns \<circ> snd) (heap s ! test_df self)
       \<and> length (heap s' ! a) = length (heap s ! test_df self)
       \<and> (distinct (map fst (heap s ! test_df self)) \<longrightarrow>
           (\<forall>k<length (heap s ! test_df self). \<exists>c v.
             ev (parse_tree self) (with_result_columns (snd (heap s ! test_df self ! k)))
               = Inr (c, v)
             \<and> heap s' ! a ! k
                 = (fst (heap s ! test_df self ! k),
                    store_result lo hi c v (with_result_columns (snd (heap s ! test_df self ! k))))
             \<and> (set derived_columns \<inter> fst ` set (snd (heap s ! test_df self ! k)) = {}
                  \<longrightarrow> snd (heap s' ! a ! k)
                      = snd (heap s ! test_df self ! k)
                        @ [(''Correct'', PyBool c), (''PredictedValue'', PyNum v),
                           (''PredictedSpecies'', PyStr (predicted_species lo hi v))])))"
proof -
  let ?df = "heap s ! test_df self"
  let ?snap = "snapshot ?df"
  let ?out = "fill ev lo hi (parse_tree self) ?snap ?snap"
  note r = tabulate_results_Inr [OF run]
  have out: "heap s' ! a = ?out" by (rule r(5))
  have calls: "calls s' = calls s @ map (with_result_columns \<circ> snd) ?df"
    by (rule tabulate_calls_every_row [OF run])
  have len: "length ?out = length ?df"
    by (simp add: length_fill length_snapshot)
  have ok: "\<forall>x\<in>set ?snap. \<exists>c v. ev (parse_tree self) (snd x) = Inr (c, v)"
    using r(2) by (simp add: outcome_Inr_iff)
  have row: "\<exists>c v.
             ev (parse_tree self) (with_result_columns (snd (?df ! k))) = Inr (c, v)
             \<and> ?out ! k = (fst (?df ! k), store_result lo hi c v (with_result_columns (snd (?df ! k))))
             \<and> (set derived_columns \<inter> fst ` set (snd (?df ! k)) = {}
                  \<longrightarrow> snd (?out ! k)
                      = snd (?df ! k)
                        @ [(''Correct'', PyBool c), (''PredictedValue'', PyNum v),
                           (''PredictedSpecies'', PyStr (predicted_species lo hi v))])"
    if labels: "distinct (map fst ?df)" and k: "k < length ?df" for k
  proof -
    have d: "distinct (map fst ?snap)"
      using labels by (simp add: snapshot_labels)
    have ks: "k < length ?snap" using k by (simp add: length_snapshot)
    have sk: "?snap ! k = (fst (?df ! k), with_result_columns (snd (?df ! k)))"
      using k by (rule snapshot_nth)
    from ok ks obtain c v where e: "ev (parse_tree self) (snd (?snap ! k)) = Inr (c, v)"
      by (meson nth_mem)
    have "?out ! k = (fst (?snap ! k), store_result lo hi c v (snd (?snap ! k)))"
      using d ks ks refl ok e by (rule fill_distinct)
    then have o: "?out ! k = (fst (?df ! k), store_result lo hi c v (with_result_columns (snd (?df ! k))))"
      by (simp add: sk)
    have "ev (parse_tree self) (with_result_columns (snd (?df ! k))) = Inr (c, v)"
      using e by (simp add: sk)
    with o show ?thesis
      by (auto simp: store_result_fresh)
  qed
  show ?thesis
    unfolding out using calls len row by blast
qed

lemma tabulate_records_distinct_labels_example:
  "tabulate_results demo_evaluate_row 2 5 demo_self demo_state
     = (Inr 1, \<lparr>heap = [demo_frame, demo_table], calls = map snd (snapshot demo_frame)\<rparr>)
   \<and> distinct (map fst (heap demo_state ! test_df demo_self))
   \<and> (\<exists>c v. demo_evaluate_row (parse_tree demo_self)
               (with_result_columns (snd (demo_frame ! 1))) = Inr (c, v)
        \<and> demo_table ! 1 = (fst (demo_frame ! 1),
              store_result 2 5 c v (with_result_columns (snd (demo_frame ! 1))))
        \<and> snd (demo_table ! 1) = snd (demo_frame ! 1)
              @ [(''Correct'', PyBool c), (''PredictedValue'', PyNum v),
                 (''PredictedSpecies'', PyStr (predicted_species 2 5 v))])"
proof -
  have d: "distinct (map fst (heap demo_state ! test_df demo_self))"
    by (simp add: demo_state_def demo_self_def demo_frame_def)
  have k: "(1::nat) < length (heap demo_state ! test_df demo_self)"
    by (simp add: demo_state_def demo_self_def demo_frame_def)
  have fresh: "set derived_columns \<inter> fst ` set (snd (heap demo_state ! test_df demo_self ! 1)) = {}"
    by (simp add: demo_state_def demo_self_def demo_frame_def derived_columns_def)
  from tabulate_records_distinct_labels [OF demo_run] d k fresh
  have "\<exists>c v. demo_evaluate_row (parse_tree demo_self)
               (with_result_columns (snd (heap demo_state ! test_df demo_self ! 1))) = Inr (c, v)
        \<and> [demo_frame, demo_table] ! 1 ! 1 = (fst (heap demo_state ! test_df demo_self ! 1),
              store_result 2 5 c v (with_result_columns (snd (heap demo_state ! test_df demo_self ! 1))))
        \<and> snd ([demo_frame, demo_table] ! 1 ! 1) = snd (heap demo_state ! test_df demo_self ! 1)
              @ [(''Correct'', PyBool c), (''PredictedValue'', PyNum v),
                 (''PredictedSpecies'', PyStr (predicted_species 2 5 v))]"
    by (simp del: One_nat_def) blast
  then have "\<exists>c v. demo_evaluate_row (parse_tree demo_self)
               (with_result_columns (snd (demo_frame ! 1))) = Inr (c, v)
        \<and> demo_table ! 1 = (fst (demo_frame ! 1),
              store_result 2 5 c v (with_result_columns (snd (demo_frame ! 1))))
        \<and> snd (demo_table ! 1) = snd (demo_frame ! 1)
              @ [(''Correct'', PyBool c), (''PredictedValue'', PyNum v),
                 (''PredictedSpecies'', PyStr (predicted_species 2 5 v))]"
    by (simp add: demo_state_def demo_self_def)
  with demo_run d show ?thesis by blast
qed

section \<open>The claims\<close>

subsection \<open>The class thresholder\<close>

text \<open>
  C1. With ascending thresholds, a score is classed Iris-setosa exactly when it is below
  the low threshold, Iris-versicolor exactly when it is at least the low and below the
  high threshold, and Iris-virginica exactly when it is at least the high threshold; a
  score equal to a threshold goes to the upper class.
\<close>

theorem classify_intervals:
  assumes "threshold_low < threshold_high"
  shows "(predicted_species threshold_low threshold_high s = ''Iris-setosa''
            \<longleftrightarrow> s < threshold_low)
       \<and> (predicted_species threshold_low threshold_high s = ''Iris-versicolor''
            \<longleftrightarrow> threshold_low \<le> s \<and> s < threshold_high)
       \<and> (predicted_species threshold_low threshold_high s = ''Iris-virginica''
            \<longleftrightarrow> threshold_high \<le> s)
       \<and> predicted_species threshold_low threshold_high threshold_low = ''Iris-versicolor''
       \<and> predicted_species threshold_low threshold_high threshold_high = ''Iris-virginica''"
  using assms by (auto simp: predicted_species_def)

theorem classify_intervals_witness:
  "(2::real) < 5
   \<and> predicted_species 2 5 1 = ''Iris-setosa''
   \<and> predicted_species 2 5 (49 / 10) = ''Iris-versicolor''
   \<and> predicted_species 2 5 9 = ''Iris-virginica''
   \<and> predicted_species 2 5 2 = ''Iris-versicolor''
   \<and> predicted_species 2 5 5 = ''Iris-virginica''"
proof -
  have h: "(2::real) < 5" by simp
  show ?thesis
    using classify_intervals [OF h, of 1] classify_intervals [OF h, of "49 / 10"]
      classify_intervals [OF h, of 9]
    by simp
qed

subsection \<open>The result table\<close>

text \<open>
  In the statements below, \<open>heap s ! test_df self\<close> is the test set before the call,
  \<open>a\<close> the frame that \<open>tabulate_results\<close> returns and \<open>s'\<close> the state it leaves. A
  reference held by a Python object always names an allocated frame; the statements
  that need \<open>test_df self < length (heap s)\<close> say so.
\<close>

text \<open>
  C2. When \<open>tabulate_results\<close> returns, the table has as many rows as the test set,
  under the same index labels in the same order, and every row without the three added
  columns is the input row without them. Each row has the input row's columns and the
  three added ones; for an input row that has none of the three names, taking them out
  of the result row gives back the input row.
\<close>

theorem tabulate_preserves_records:
  assumes "tabulate_results ev lo hi self s = (Inr a, s')"
  shows "length (heap s' ! a) = length (heap s ! test_df self)
       \<and> map fst (heap s' ! a) = map fst (heap s ! test_df self)
       \<and> map (original_fields \<circ> snd) (heap s' ! a)
           = map (original_fields \<circ> snd) (heap s ! test_df self)
       \<and> (\<forall>k<length (heap s ! test_df self).
             fst ` set (snd (heap s' ! a ! k))
               = fst ` set (snd (heap s ! test_df self ! k)) \<union> set derived_columns
             \<and> (set derived_columns \<inter> fst ` set (snd (heap s ! test_df self ! k)) = {}
                  \<longrightarrow> original_fields (snd (heap s' ! a ! k)) = snd (heap s ! test_df self ! k)))"
proof -
  let ?df = "heap s ! test_df self"
  let ?snap = "snapshot ?df"
  let ?out = "fill ev lo hi (parse_tree self) ?snap ?snap"
  have out: "heap s' ! a = ?out" by (rule tabulate_results_Inr(5) [OF assms])
  have len: "length ?out = length ?df"
    by (simp add: length_fill length_snapshot)
  have lab: "map fst ?out = map fst ?df"
    by (simp add: fill_labels snapshot_labels)
  have orig: "map (original_fields \<circ> snd) ?out = map (original_fields \<circ> snd) ?df"
    by (simp add: fill_original snapshot_original)
  have cols: "fst ` set (snd (?out ! k)) = fst ` set (snd (?df ! k)) \<union> set derived_columns"
    and fresh: "set derived_columns \<inter> fst ` set (snd (?df ! k)) = {}
                  \<longrightarrow> original_fields (snd (?out ! k)) = snd (?df ! k)"
    if k: "k < length ?df" for k
  proof -
    have ks: "k < length ?snap" using k by (simp add: length_snapshot)
    have sk: "snd (?snap ! k) = with_result_columns (snd (?df ! k))"
      using k by (simp add: snapshot_nth)
    have "fst ` set (snd (?out ! k)) = fst ` set (snd (?snap ! k))"
      by (rule fill_columns [OF ks]) (simp add: sk columns_with_result_columns)
    then show "fst ` set (snd (?out ! k)) = fst ` set (snd (?df ! k)) \<union> set derived_columns"
      by (simp add: sk columns_with_result_columns)
    have "map (original_fields \<circ> snd) ?out ! k = map (original_fields \<circ> snd) ?df ! k"
      by (simp only: orig)
    then have o: "original_fields (snd (?out ! k)) = original_fields (snd (?df ! k))"
      using k len by simp
    show "set derived_columns \<inter> fst ` set (snd (?df ! k)) = {}
                  \<longrightarrow> original_fields (snd (?out ! k)) = snd (?df ! k)"
    proof
      assume "set derived_columns \<inter> fst ` set (snd (?df ! k)) = {}"
      then have "\<forall>p\<in>set (snd (?df ! k)). fst p \<notin> set derived_columns" by auto
      then have "original_fields (snd (?df ! k)) = snd (?df ! k)"
        by (auto simp: original_fields_def split_def intro: filter_True)
      with o show "original_fields (snd (?out ! k)) = snd (?df ! k)" by simp
    qed
  qed
  show ?thesis
    unfolding out using len lab orig cols fresh by blast
qed

theorem tabulate_preserves_records_witness:
  "tabulate_results demo_evaluate_row 2 5 demo_self demo_state
     = (Inr 1, \<lparr>heap = [demo_frame, demo_table], calls = map snd (snapshot demo_frame)\<rparr>)
   \<and> length demo_table = length demo_frame
   \<and> map fst demo_table = map fst demo_frame
   \<and> map (original_fields \<circ> snd) demo_table = map (original_fields \<circ> snd) demo_frame"
  using tabulate_preserves_records [OF demo_run] demo_run
  by (simp add: demo_self_def demo_state_def)

text \<open>
  C3. If \<open>IrisGP.evaluate_row\<close> raises on row \<open>k\<close> and returned on the rows before it,
  \<open>tabulate_results\<close> raises the same exception and returns no frame; the predictor has
  been called on rows \<open>0\<close> to \<open>k\<close>, once each and on no later row, and every frame
  that existed before the call is as it was.
\<close>

theorem predictor_failure_aborts:
  assumes k: "k < length (heap s ! test_df self)"
    and fail: "ev (parse_tree self) (with_result_columns (snd (heap s ! test_df self ! k))) = Inl e"
    and before: "\<forall>j<k. \<exists>c v.
        ev (parse_tree self) (with_result_columns (snd (heap s ! test_df self ! j))) = Inr (c, v)"
  shows "fst (tabulate_results ev lo hi self s) = Inl e
       \<and> calls (snd (tabulate_results ev lo hi self s))
           = calls s @ map (with_result_columns \<circ> snd) (take (Suc k) (heap s ! test_df self))
       \<and> take (length (heap s)) (heap (snd (tabulate_results ev lo hi self s))) = heap s"
proof -
  let ?df = "heap s ! test_df self"
  let ?snap = "snapshot ?df"
  have ks: "k < length ?snap" using k by (simp add: length_snapshot)
  have f: "ev (parse_tree self) (snd (?snap ! k)) = Inl e"
    using k fail by (simp add: snapshot_nth)
  have b: "\<forall>j<k. \<exists>c v. ev (parse_tree self) (snd (?snap ! j)) = Inr (c, v)"
    using k before by (simp add: snapshot_nth)
  have "outcome ev (parse_tree self) ?snap = Inl e
      \<and> called ev (parse_tree self) ?snap = map snd (take (Suc k) ?snap)"
    using ks f b by (rule first_failure)
  then have o: "outcome ev (parse_tree self) ?snap = Inl e"
    and c: "called ev (parse_tree self) ?snap = map snd (take (Suc k) ?snap)"
    by simp_all
  show ?thesis
    by (simp add: tabulate_results_char o c snapshot_rows)
qed

theorem predictor_failure_aborts_witness:
  "(2::nat) < length (heap demo_bad_state ! test_df demo_self)
   \<and> demo_evaluate_row (parse_tree demo_self)
        (with_result_columns (snd (heap demo_bad_state ! test_df demo_self ! 2)))
        = Inl ''PetalLengthCm''
   \<and> fst (tabulate_results demo_evaluate_row 2 5 demo_self demo_bad_state) = Inl ''PetalLengthCm''
   \<and> length (calls (snd (tabulate_results demo_evaluate_row 2 5 demo_self demo_bad_state))) = 3
   \<and> heap (snd (tabulate_results demo_evaluate_row 2 5 demo_self demo_bad_state)) ! 0
        = demo_bad_frame"
proof -
  have k: "(2::nat) < length (heap demo_bad_state ! test_df demo_self)"
    by (simp add: demo_bad_state_def demo_self_def demo_bad_frame_def)
  have fail: "demo_evaluate_row (parse_tree demo_self)
        (with_result_columns (snd (heap demo_bad_state ! test_df demo_self ! 2)))
        = Inl ''PetalLengthCm''"
    by (simp add: demo_bad_state_def demo_self_def demo_bad_frame_def demo_evaluate_row_def
        with_result_columns_def)
  have before: "\<forall>j<2. \<exists>c v. demo_evaluate_row (parse_tree demo_self)
        (with_result_columns (snd (heap demo_bad_state ! test_df demo_self ! j))) = Inr (c, v)"
  proof (intro allI impI)
    fix j :: nat assume "j < 2"
    then have "j = 0 \<or> j = 1" by auto
    then show "\<exists>c v. demo_evaluate_row (parse_tree demo_self)
        (with_result_columns (snd (heap demo_bad_state ! test_df demo_self ! j))) = Inr (c, v)"
      by (auto simp: demo_bad_state_def demo_self_def demo_bad_frame_def demo_evaluate_row_def
          with_result_columns_def)
  qed
  have "fst (tabulate_results demo_evaluate_row 2 5 demo_self demo_bad_state) = Inl ''PetalLengthCm''
       \<and> calls (snd (tabulate_results demo_evaluate_row 2 5 demo_self demo_bad_state))
           = calls demo_bad_state @ map (with_result_columns \<circ> snd)
               (take (Suc 2) (heap demo_bad_state ! test_df demo_self))
       \<and> take (length (heap demo_bad_state))
              (heap (snd (tabulate_results demo_evaluate_row 2 5 demo_self demo_bad_state)))
            = heap demo_bad_state"
    using k fail before by (rule predictor_failure_aborts)
  then have r: "fst (tabulate_results demo_evaluate_row 2 5 demo_self demo_bad_state) = Inl ''PetalLengthCm''"
    and c: "calls (snd (tabulate_results demo_evaluate_row 2 5 demo_self demo_bad_state))
           = calls demo_bad_state @ map (with_result_columns \<circ> snd)
               (take (Suc 2) (heap demo_bad_state ! test_df demo_self))"
    and h: "take (length (heap demo_bad_state))
              (heap (snd (tabulate_results demo_evaluate_row 2 5 demo_self demo_bad_state)))
            = heap demo_bad_state"
    by simp_all
  have len: "length (calls (snd (tabulate_results demo_evaluate_row 2 5 demo_self demo_bad_state))) = 3"
    unfolding c by (simp add: demo_bad_state_def demo_self_def demo_bad_frame_def)
  have "take 1 (heap (snd (tabulate_results demo_evaluate_row 2 5 demo_self demo_bad_state)))
          = [demo_bad_frame]"
    using h by (simp add: demo_bad_state_def)
  then have "take 1 (heap (snd (tabulate_results demo_evaluate_row 2 5 demo_self demo_bad_state))) ! 0
          = demo_bad_frame"
    by simp
  then have h0: "heap (snd (tabulate_results demo_evaluate_row 2 5 demo_self demo_bad_state)) ! 0
          = demo_bad_frame"
    by simp
  from k fail r len h0 show ?thesis by blast
qed

text \<open>
  C4. In every row of the table, \<open>Correct\<close> should be the boolean that the predictor
  reported for that row. On the sample with two rows under one index label the source
  does not do so: it returns a table, the predictor reports \<open>True\<close> for the first row,
  and the first row of the table has \<open>False\<close>, the flag reported for the second row.
\<close>

theorem twin_labels_flag_of_other_record:
  "fst (tabulate_results demo_evaluate_row 2 5 demo_self demo_twin_state) = Inr 1
   \<and> demo_evaluate_row (parse_tree demo_self) (with_result_columns (snd (demo_twin_frame ! 0)))
       = Inr (True, 1)
   \<and> map_of (snd (heap (snd (tabulate_results demo_evaluate_row 2 5 demo_self demo_twin_state))
                ! 1 ! 0)) ''Correct'' = Some (PyBool False)"
  by (simp add: demo_twin_run demo_twin_table_def demo_twin_frame_def demo_evaluate_row_def
      with_result_columns_def)

text \<open>
  C5. Every row of the table should be the input row with the three columns filled from
  the predictor's result for that row. On the sample with two rows under one index label
  the source does not do so: it returns a table, the predictor returns the value 1
  (Iris-setosa) for the first row, and the first row of the table has 9 and
  Iris-virginica, what the second row was given.
\<close>

theorem twin_labels_share_last_result:
  "fst (tabulate_results demo_evaluate_row 2 5 demo_self demo_twin_state) = Inr 1
   \<and> demo_evaluate_row (parse_tree demo_self) (with_result_columns (snd (demo_twin_frame ! 0)))
       = Inr (True, 1)
   \<and> heap (snd (tabulate_results demo_evaluate_row 2 5 demo_self demo_twin_state)) ! 1 ! 0
       \<noteq> (fst (demo_twin_frame ! 0),
           store_result 2 5 True 1 (with_result_columns (snd (demo_twin_frame ! 0))))
   \<and> map_of (snd (heap (snd (tabulate_results demo_evaluate_row 2 5 demo_self demo_twin_state))
                ! 1 ! 0)) ''PredictedValue'' = Some (PyNum 9)
   \<and> map_of (snd (heap (snd (tabulate_results demo_evaluate_row 2 5 demo_self demo_twin_state))
                ! 1 ! 0)) ''PredictedSpecies'' = Some (PyStr ''Iris-virginica'')
   \<and> predicted_species 2 5 1 = ''Iris-setosa''"
  by (simp add: demo_twin_run demo_twin_table_def demo_twin_frame_def demo_evaluate_row_def
      store_result_def with_result_columns_def predicted_species_def)

text \<open>
  C6. On a test set without rows, \<open>tabulate_results\<close> returns a new frame without rows,
  calls \<open>IrisGP.evaluate_row\<close> not at all and raises nothing.
\<close>

theorem empty_input_empty_table:
  assumes "heap s ! test_df self = []"
  shows "\<exists>a s'. tabulate_results ev lo hi self s = (Inr a, s')
           \<and> heap s' ! a = [] \<and> calls s' = calls s \<and> heap s' = heap s @ [[]]"
  using assms by (simp add: tabulate_results_char snapshot_def)

theorem empty_input_empty_table_witness:
  "heap \<lparr>heap = [[]], calls = []\<rparr> ! test_df demo_self = []
   \<and> (\<exists>a s'. tabulate_results demo_evaluate_row 2 5 demo_self \<lparr>heap = [[]], calls = []\<rparr>
                 = (Inr a, s')
        \<and> heap s' ! a = [] \<and> calls s' = [] \<and> heap s' = [[], []])"
proof -
  have h: "heap \<lparr>heap = [[]], calls = []\<rparr> ! test_df demo_self = []"
    by (simp add: demo_self_def)
  from empty_input_empty_table [OF h, of demo_evaluate_row 2 5] h show ?thesis
    by simp
qed

text \<open>
  C7. Whether \<open>tabulate_results\<close> returns or raises, the test set and every other frame
  that existed before the call are unchanged; one frame is new.
\<close>

theorem input_frame_unchanged:
  assumes "test_df self < length (heap s)"
  shows "heap (snd (tabulate_results ev lo hi self s)) ! test_df self = heap s ! test_df self
       \<and> take (length (heap s)) (heap (snd (tabulate_results ev lo hi self s))) = heap s
       \<and> length (heap (snd (tabulate_results ev lo hi self s))) = Suc (length (heap s))"
  using assms by (simp add: tabulate_results_char nth_append)

theorem input_frame_unchanged_witness:
  "test_df demo_self < length (heap demo_state)
   \<and> heap (snd (tabulate_results demo_evaluate_row 2 5 demo_self demo_state)) ! test_df demo_self
       = demo_frame
   \<and> length (heap (snd (tabulate_results demo_evaluate_row 2 5 demo_self demo_state))) = 2"
proof -
  have h: "test_df demo_self < length (heap demo_state)"
    by (simp add: demo_self_def demo_state_def)
  from input_frame_unchanged [OF h, of demo_evaluate_row 2 5] h show ?thesis
    by (simp add: demo_self_def demo_state_def)
qed

text \<open>
  C9. The predictor of this model is a function of the tree and the row. A second call
  of \<open>tabulate_results\<close> after a first one that returned, on the same object, returns
  another frame with the same rows as the first, which is as the first call left it.
\<close>

theorem tabulate_twice_same_table:
  assumes valid: "test_df self < length (heap s)"
    and first: "tabulate_results ev lo hi self s = (Inr a1, s1)"
  shows "\<exists>a2 s2. tabulate_results ev lo hi self s1 = (Inr a2, s2)
           \<and> a2 \<noteq> a1 \<and> heap s2 ! a2 = heap s2 ! a1 \<and> heap s2 ! a1 = heap s1 ! a1"
proof -
  note run = tabulate_results_Inr [OF first]
  have same: "heap s1 ! test_df self = heap s ! test_df self"
    using valid by (simp add: run(3) nth_append)
  have a1: "a1 < length (heap s1)" by (simp add: run(1) run(3))
  let ?r = "tabulate_results ev lo hi self s1"
  have f: "fst ?r = Inr (length (heap s1))"
    by (simp add: tabulate_results_char same run(2))
  then have second: "?r = (Inr (length (heap s1)), snd ?r)"
    by (simp add: prod_eq_iff)
  note run2 = tabulate_results_Inr [OF second]
  have "heap (snd ?r) ! length (heap s1) = heap s1 ! a1"
    using run2(5) run(5) same by simp
  moreover have "heap (snd ?r) ! a1 = heap s1 ! a1"
    using a1 by (simp add: run2(3) nth_append)
  moreover have "length (heap s1) \<noteq> a1" using a1 by simp
  ultimately show ?thesis using second by metis
qed

theorem tabulate_twice_same_table_witness:
  "test_df demo_self < length (heap demo_state)
   \<and> tabulate_results demo_evaluate_row 2 5 demo_self demo_state
       = (Inr 1, \<lparr>heap = [demo_frame, demo_table], calls = map snd (snapshot demo_frame)\<rparr>)
   \<and> (\<exists>a2 s2. tabulate_results demo_evaluate_row 2 5 demo_self
                 \<lparr>heap = [demo_frame, demo_table], calls = map snd (snapshot demo_frame)\<rparr>
                 = (Inr a2, s2)
        \<and> a2 \<noteq> 1 \<and> heap s2 ! a2 = heap s2 ! 1 \<and> heap s2 ! 1 = demo_table)"
proof -
  have h: "test_df demo_self < length (heap demo_state)"
    by (simp add: demo_self_def demo_state_def)
  from tabulate_twice_same_table [OF h demo_run] h demo_run show ?thesis
    by simp
qed

subsection \<open>The display encodings\<close>

text \<open>
  C8. A correct prediction is drawn smaller and more transparent than a wrong one.
\<close>

theorem encoder_ordering:
  "scatter_size (PyBool True) < scatter_size (PyBool False)
   \<and> scatter_alpha (PyBool True) < scatter_alpha (PyBool False)"
  by (simp add: scatter_size_def scatter_alpha_def CORRECT_SIZE_def INCORRECT_SIZE_def
      CORRECT_OPACITY_def)

text \<open>
  C10. The class of any value is one of the three keys of \<open>COLOR_MAP\<close>, and for every row
  of a table that \<open>tabulate_results\<close> returned, \<open>COLOR_MAP[row["PredictedSpecies"]]\<close> finds
  a colour.
\<close>

theorem color_lookup_total:
  "predicted_species lo hi res \<in> fst ` set COLOR_MAP
   \<and> fst ` set COLOR_MAP = {''Iris-setosa'', ''Iris-versicolor'', ''Iris-virginica''}
   \<and> (tabulate_results ev lo hi self s = (Inr a, s') \<longrightarrow>
        (\<forall>(idx, row)\<in>set (heap s' ! a). \<exists>color. scatter_color row = Inr color))"
proof (intro conjI impI)
  show "predicted_species lo hi res \<in> fst ` set COLOR_MAP" by (rule predicted_species_key)
  show "fst ` set COLOR_MAP = {''Iris-setosa'', ''Iris-versicolor'', ''Iris-virginica''}"
    by (rule COLOR_MAP_keys)
next
  assume run: "tabulate_results ev lo hi self s = (Inr a, s')"
  show "\<forall>(idx, row)\<in>set (heap s' ! a). \<exists>color. scatter_color row = Inr color"
  proof (clarify)
    fix idx row assume "(idx, row) \<in> set (heap s' ! a)"
    from table_rows_reported [OF run this] obtain v where
      sp: "map_of row ''PredictedSpecies'' = Some (PyStr (predicted_species lo hi v))"
      by blast
    have "predicted_species lo hi v \<in> fst ` set COLOR_MAP" by (rule predicted_species_key)
    then obtain c where "map_of COLOR_MAP (predicted_species lo hi v) = Some c"
      by (metis map_of_eq_None_iff not_Some_eq)
    with sp show "\<exists>color. scatter_color row = Inr color"
      by (simp add: scatter_color_def)
  qed
qed

theorem color_lookup_total_witness:
  "tabulate_results demo_evaluate_row 2 5 demo_self demo_state
     = (Inr 1, \<lparr>heap = [demo_frame, demo_table], calls = map snd (snapshot demo_frame)\<rparr>)
   \<and> predicted_species 2 5 2 \<in> fst ` set COLOR_MAP
   \<and> (\<exists>color. scatter_color (snd (demo_table ! 1)) = Inr color)"
proof -
  have m: "(1, snd (demo_table ! 1)) \<in> set ([demo_frame, demo_table] ! 1)"
    by (simp add: demo_table_def)
  note t = color_lookup_total [of 2 5 2 demo_evaluate_row demo_self demo_state 1
      "\<lparr>heap = [demo_frame, demo_table], calls = map snd (snapshot demo_frame)\<rparr>"]
  from t have key: "predicted_species 2 5 2 \<in> fst ` set COLOR_MAP"
    by (rule conjunct1)
  have rows: "\<forall>(idx, row)\<in>set (heap \<lparr>heap = [demo_frame, demo_table],
      calls = map snd (snapshot demo_frame)\<rparr> ! 1). \<exists>color. scatter_color row = Inr color"
    using demo_run by (rule t [THEN conjunct2, THEN conjunct2, THEN mp])
  then have rows: "\<forall>(idx, row)\<in>set ([demo_frame, demo_table] ! 1). \<exists>color. scatter_color row = Inr color"
    by simp
  from rows m have "\<exists>color. scatter_color (snd (demo_table ! 1)) = Inr color"
    by fast
  with demo_run key show ?thesis by (intro conjI)
qed

end
